theory Spec2Isabelle
  imports Complex_Main
begin

section \<open>JavaScript values used by the session controller\<close>

text \<open>
  \<^verbatim>\<open>currentImage\<close> has type \<^verbatim>\<open>string | null\<close>; reading an array out of range gives
  \<^verbatim>\<open>undefined\<close>. Both are \<open>None\<close> here: the code only ever tests such a value for
  truthiness. A string is truthy unless it is empty.
\<close>

definition truthy :: "string option \<Rightarrow> bool" where
  "truthy v = (case v of None \<Rightarrow> False | Some u \<Rightarrow> u \<noteq> [])"

text \<open>\<^verbatim>\<open>xs[i]\<close>: \<^verbatim>\<open>undefined\<close> outside \<open>0 .. length - 1\<close>.\<close>

definition at_index :: "'a list \<Rightarrow> int \<Rightarrow> 'a option" where
  "at_index xs i = (if 0 \<le> i \<and> i < int (length xs) then Some (xs ! nat i) else None)"

text \<open>
  \<^verbatim>\<open>xs.slice(0, e)\<close>: a negative end counts from the end of the array, and the result
  is clipped to the array.
\<close>

definition slice0 :: "'a list \<Rightarrow> int \<Rightarrow> 'a list" where
  "slice0 xs e = take (nat (if e < 0 then int (length xs) + e else e)) xs"

datatype side = Left | Right | Center

text \<open>The enum \<^verbatim>\<open>Genre\<close> and the string each member stands for at run time.\<close>

datatype Genre = Nature | Urban | Abstract | Space | Minimalism | Animals

fun genre_text :: "Genre \<Rightarrow> string" where
  "genre_text Nature = ''Nature''"
| "genre_text Urban = ''Urban Architecture''"
| "genre_text Abstract = ''Abstract Art''"
| "genre_text Space = ''Deep Space''"
| "genre_text Minimalism = ''Minimalism''"
| "genre_text Animals = ''Wildlife''"

section \<open>State of the App component\<close>

text \<open>
  The \<^verbatim>\<open>useState\<close> cells and \<^verbatim>\<open>useRef\<close> cells of \<^verbatim>\<open>App\<close> that the navigation and
  gesture handlers read or write. \<open>inFlight\<close> lists the calls of \<^verbatim>\<open>loadNewImage\<close> that
  have passed the guard and whose provider promise or image decode has not settled yet;
  each entry is the \<^verbatim>\<open>historyIndex\<close> that the closure of that call holds.
  \<open>singleTapTimer\<close> is \<open>Some b\<close> while the 300 ms timer is armed, \<open>b\<close> being the
  \<^verbatim>\<open>showControls\<close> its callback closed over. \<open>controlsTimer\<close> tells whether the 4 s
  auto-hide timer is armed. \<open>config_genre\<close> is \<^verbatim>\<open>config.genre\<close>. \<open>deferred\<close> lists the
  100 ms timers that \<^verbatim>\<open>updateConfig\<close> has set and that have not fired yet; each entry
  is the \<^verbatim>\<open>historyIndex\<close> held by the \<^verbatim>\<open>loadNewImage\<close> its callback closed over.
\<close>

record app =
  brightness :: real
  currentImage :: "string option"
  loading :: bool
  showControls :: bool
  imageHistory :: "string list"
  historyIndex :: int
  isGenerating :: bool
  inFlight :: "int list"
  lastTapTime :: int
  lastTapSide :: "side option"
  singleTapTimer :: "bool option"
  controlsTimer :: bool
  touchStart :: "(real \<times> real) option"
  initialBrightness :: real
  config_genre :: Genre
  deferred :: "int list"

definition initial :: app where
  "initial = \<lparr> brightness = 1, currentImage = None, loading = True, showControls = False,
     imageHistory = [], historyIndex = - 1, isGenerating = False, inFlight = [],
     lastTapTime = 0, lastTapSide = None, singleTapTimer = None, controlsTimer = False,
     touchStart = None, initialBrightness = 1, config_genre = Nature, deferred = [] \<rparr>"

section \<open>Image loading\<close>

text \<open>
  \<^verbatim>\<open>loadNewImage\<close> is a \<^verbatim>\<open>useCallback\<close> over \<^verbatim>\<open>[config.genre, historyIndex]\<close>: the
  \<^verbatim>\<open>historyIndex\<close> it passes to \<^verbatim>\<open>slice\<close> is the one of the render that created the
  callback, here the parameter \<open>k\<close>, whereas the state updaters
  (\<^verbatim>\<open>prev => ...\<close>) see the state at the time they run. The function falls into three
  parts: the synchronous prefix up to the \<^verbatim>\<open>await\<close>, the continuation once the
  provider has answered, and the two image callbacks.
\<close>

definition loadNewImage :: "int \<Rightarrow> app \<Rightarrow> app" where
  "loadNewImage k s =
     (if isGenerating s then s
      else s\<lparr> isGenerating := True, loading := True, inFlight := inFlight s @ [k] \<rparr>)"

definition img_onload :: "int \<Rightarrow> string \<Rightarrow> app \<Rightarrow> app" where
  "img_onload k imageUrl s =
     (let s1 = (case currentImage s of
                  None \<Rightarrow> s
                | Some prevImage \<Rightarrow>
                    if prevImage \<noteq> [] then
                      s\<lparr> imageHistory := slice0 (imageHistory s) (k + 1) @ [prevImage],
                         historyIndex := historyIndex s + 1 \<rparr>
                    else s)
      in s1\<lparr> currentImage := Some imageUrl, loading := False, isGenerating := False \<rparr>)"

definition img_onerror :: "app \<Rightarrow> app" where
  "img_onerror s = s\<lparr> loading := False, isGenerating := False \<rparr>"

text \<open>
  The continuation after \<^verbatim>\<open>await generateArtImage(config.genre)\<close>: \<open>imageUrl\<close> is what
  the provider resolved to, \<open>decoded\<close> tells which of \<^verbatim>\<open>img.onload\<close> and
  \<^verbatim>\<open>img.onerror\<close> the browser fires for the preloaded image.
\<close>

definition loadNewImage_resume :: "int \<Rightarrow> string option \<Rightarrow> bool \<Rightarrow> app \<Rightarrow> app" where
  "loadNewImage_resume k imageUrl decoded s =
     (case imageUrl of
        None \<Rightarrow> s\<lparr> loading := False, isGenerating := False \<rparr>
      | Some u \<Rightarrow>
          if u \<noteq> [] then (if decoded then img_onload k u s else img_onerror s)
          else s\<lparr> loading := False, isGenerating := False \<rparr>)"

text \<open>The \<open>j\<close>-th load in flight settles; there is nothing to settle beyond the list.\<close>

definition settle :: "nat \<Rightarrow> string option \<Rightarrow> bool \<Rightarrow> app \<Rightarrow> app" where
  "settle j imageUrl decoded s =
     (if j < length (inFlight s) then
        loadNewImage_resume (inFlight s ! j) imageUrl decoded
          (s\<lparr> inFlight := take j (inFlight s) @ drop (Suc j) (inFlight s) \<rparr>)
      else s)"

text \<open>
  \<^verbatim>\<open>loadPreviousImage\<close> is only called from \<^verbatim>\<open>handleInteraction\<close>, which every render
  creates anew, so the \<^verbatim>\<open>historyIndex\<close> and \<^verbatim>\<open>imageHistory\<close> it closes over are those
  of the state it runs in.
\<close>

definition loadPreviousImage :: "app \<Rightarrow> app" where
  "loadPreviousImage s =
     (if historyIndex s \<ge> 0 \<and> length (imageHistory s) > 0 then
        s\<lparr> currentImage := at_index (imageHistory s) (historyIndex s),
           historyIndex := historyIndex s - 1 \<rparr>
      else s)"

text \<open>
  \<^verbatim>\<open>updateConfig({genre: g})\<close>, as the genre buttons call it. \<^verbatim>\<open>updateConfig\<close> is
  created anew by every render, so the \<^verbatim>\<open>config\<close> it compares with and the
  \<^verbatim>\<open>loadNewImage\<close> it hands to \<^verbatim>\<open>setTimeout(() => loadNewImage(), 100)\<close> are those of
  the state it runs in; the timer callback keeps that \<^verbatim>\<open>loadNewImage\<close> until it fires.
\<close>

definition updateConfig_genre :: "Genre \<Rightarrow> app \<Rightarrow> app" where
  "updateConfig_genre g s =
     s\<lparr> config_genre := g, controlsTimer := False,
        deferred := (if g \<noteq> config_genre s then deferred s @ [historyIndex s] else deferred s) \<rparr>"

text \<open>The \<open>j\<close>-th of these timers fires and calls the \<^verbatim>\<open>loadNewImage\<close> it holds.\<close>

definition deferredCall :: "nat \<Rightarrow> app \<Rightarrow> app" where
  "deferredCall j s =
     (if j < length (deferred s) then
        loadNewImage (deferred s ! j)
          (s\<lparr> deferred := take j (deferred s) @ drop (Suc j) (deferred s) \<rparr>)
      else s)"

section \<open>Runs of the session\<close>

text \<open>
  The events that move the navigation state. \<open>CallLoadNew\<close> is a call of
  \<^verbatim>\<open>loadNewImage\<close> through the current render (double tap, NEXT button, slideshow
  interval, initial load), whose closure holds the current \<^verbatim>\<open>historyIndex\<close>.
  \<open>PickGenre\<close> is a press on a genre button and \<open>DeferredCall\<close> the firing of a timer
  that such a press has set: a call of \<^verbatim>\<open>loadNewImage\<close> through the render of the
  press.
\<close>

datatype event =
  CallLoadNew | Settle nat "string option" bool | CallLoadPrevious
  | PickGenre Genre | DeferredCall nat

fun step :: "app \<Rightarrow> event \<Rightarrow> app" where
  "step s CallLoadNew = loadNewImage (historyIndex s) s"
| "step s (Settle j imageUrl decoded) = settle j imageUrl decoded s"
| "step s CallLoadPrevious = loadPreviousImage s"
| "step s (PickGenre g) = updateConfig_genre g s"
| "step s (DeferredCall j) = deferredCall j s"

definition run :: "app \<Rightarrow> event list \<Rightarrow> app" where
  "run s evs = foldl step s evs"

text \<open>A call of \<^verbatim>\<open>loadNewImage\<close> that runs to its end before anything else happens.\<close>

definition loadNewImage_whole :: "string option \<Rightarrow> bool \<Rightarrow> app \<Rightarrow> app" where
  "loadNewImage_whole imageUrl decoded s =
     settle (length (inFlight s)) imageUrl decoded (loadNewImage (historyIndex s) s)"

section \<open>Tap and swipe gestures\<close>

text \<open>
  Screen coordinates and the brightness are JavaScript numbers; they are taken here as
  real numbers, so the rounding of double arithmetic is left out. \<^verbatim>\<open>Date.getTime()\<close>
  is an integer number of milliseconds.
\<close>

definition side_of :: "real \<Rightarrow> real \<Rightarrow> side" where
  "side_of clientX width =
     (if clientX < width * (35 / 100) then Left
      else if clientX > width * (65 / 100) then Right
      else Center)"

text \<open>
  \<^verbatim>\<open>handleInteraction\<close>, with the click position, \<^verbatim>\<open>window.innerWidth\<close> and the clock
  reading as arguments. The wake-lock request it starts with touches none of the cells
  modelled here.
\<close>

definition handleInteraction :: "real \<Rightarrow> real \<Rightarrow> int \<Rightarrow> app \<Rightarrow> app" where
  "handleInteraction clientX width currentTime s =
     (let sd = side_of clientX width;
          tapLength = currentTime - lastTapTime s
      in if tapLength < 300 \<and> tapLength > 0 \<and> lastTapSide s = Some sd \<and> sd \<noteq> Center then
           (let s1 = s\<lparr> singleTapTimer := None \<rparr>;
                s2 = (if sd = Right then loadNewImage (historyIndex s1) s1
                      else if sd = Left then loadPreviousImage s1
                      else s1)
            in s2\<lparr> lastTapTime := 0, lastTapSide := None \<rparr>)
         else
           s\<lparr> lastTapTime := currentTime, lastTapSide := Some sd,
              singleTapTimer := Some (showControls s) \<rparr>)"

text \<open>The callback of the 300 ms timer; it cannot run once the timer is cleared.\<close>

definition singleTapAction :: "app \<Rightarrow> app" where
  "singleTapAction s =
     (case singleTapTimer s of
        None \<Rightarrow> s
      | Some shown \<Rightarrow>
          (if shown then s\<lparr> showControls := False, singleTapTimer := None \<rparr>
           else s\<lparr> showControls := True, controlsTimer := True, singleTapTimer := None \<rparr>))"

definition handleTouchStart :: "real \<Rightarrow> real \<Rightarrow> app \<Rightarrow> app" where
  "handleTouchStart clientX clientY s =
     s\<lparr> touchStart := Some (clientX, clientY), initialBrightness := brightness s \<rparr>"

definition handleTouchMove :: "real \<Rightarrow> real \<Rightarrow> real \<Rightarrow> app \<Rightarrow> app" where
  "handleTouchMove clientX clientY width s =
     (case touchStart s of
        None \<Rightarrow> s
      | Some (startX, startY) \<Rightarrow>
          (let deltaY = startY - clientY;
               deltaX = clientX - startX;
               isRightSide = (startX > width * (6 / 10))
           in if isRightSide \<and> \<bar>deltaY\<bar> > 10 \<and> \<bar>deltaY\<bar> > \<bar>deltaX\<bar> then
                s\<lparr> brightness := max (1 / 10) (min 2 (initialBrightness s + deltaY / 300)) \<rparr>
              else s))"

definition handleTouchEnd :: "app \<Rightarrow> app" where
  "handleTouchEnd s = s\<lparr> touchStart := None \<rparr>"

text \<open>The \<^verbatim>\<open>touchmove\<close> events of one touch, in the order they arrive.\<close>

definition touchMoves :: "real \<Rightarrow> (real \<times> real) list \<Rightarrow> app \<Rightarrow> app" where
  "touchMoves width moves s =
     foldl (\<lambda>s (clientX, clientY). handleTouchMove clientX clientY width s) s moves"

section \<open>The image provider\<close>

text \<open>
  The characters that \<^verbatim>\<open>\s\<close> matches among the 7-bit ones: tab, line feed, vertical
  tab, form feed, carriage return and space. The genre names hold no others.
\<close>

definition is_ws :: "char \<Rightarrow> bool" where
  "is_ws c = ((of_char c :: nat) \<in> {9, 10, 11, 12, 13, 32})"

text \<open>\<^verbatim>\<open>str.replace(/\s+/g, '-')\<close>: every maximal run of whitespace becomes one hyphen.\<close>

function replace_ws :: "string \<Rightarrow> string" where
  "replace_ws [] = []"
| "replace_ws (c # cs) =
     (if is_ws c then CHR ''-'' # replace_ws (dropWhile is_ws cs) else c # replace_ws cs)"
  by pat_completeness auto
termination
  by (relation "measure length") (auto simp: length_dropWhile_le le_imp_less_Suc)

text \<open>How a template literal prints an integer-valued number below \<open>10\<^sup>2\<^sup>1\<close> in size.\<close>

definition digit_char :: "nat \<Rightarrow> char" where
  "digit_char d = ''0123456789'' ! d"

function decimal :: "nat \<Rightarrow> string" where
  "decimal n = (if n < 10 then [digit_char n] else decimal (n div 10) @ [digit_char (n mod 10)])"
  by pat_completeness auto
termination
  by (relation "measure id") auto

declare replace_ws.simps [simp del] decimal.simps [simp del]

definition number_text :: "int \<Rightarrow> string" where
  "number_text i = (if i < 0 then CHR ''-'' # decimal (nat (- i)) else decimal (nat i))"

text \<open>
  TypeScript types are gone at run time, so the argument of \<^verbatim>\<open>generateArtImage\<close> is
  some JavaScript value; a member of \<^verbatim>\<open>Genre\<close> is the string it stands for.
\<close>

datatype js_value = JUndefined | JNull | JBoolean bool | JNumber real | JString string

definition genre_value :: "Genre \<Rightarrow> js_value" where
  "genre_value g = JString (genre_text g)"

datatype js_error = TypeError

text \<open>
  \<^verbatim>\<open>genre.replace(/\s+/g, '-')\<close>: reading a property of \<^verbatim>\<open>undefined\<close> or \<^verbatim>\<open>null\<close>
  throws, and so does calling \<^verbatim>\<open>replace\<close> on a number or a boolean, which have no such
  method.
\<close>

fun replace_call :: "js_value \<Rightarrow> js_error + string" where
  "replace_call (JString str) = Inr (replace_ws str)"
| "replace_call JUndefined = Inl TypeError"
| "replace_call JNull = Inl TypeError"
| "replace_call (JBoolean b) = Inl TypeError"
| "replace_call (JNumber x) = Inl TypeError"

text \<open>
  The body of the \<^verbatim>\<open>try\<close> block of \<^verbatim>\<open>generateArtImage\<close>, \<open>random\<close> being the value of
  \<^verbatim>\<open>Math.random()\<close>. \<^verbatim>\<open>Math.floor\<close> and template literals over strings and numbers
  do not throw; the call of \<^verbatim>\<open>replace\<close> is the one expression that can.
\<close>

definition generateArtImage_try :: "js_value \<Rightarrow> real \<Rightarrow> js_error + string" where
  "generateArtImage_try genre random =
     (let cacheBuster = \<lfloor>random * 100000\<rfloor>
      in case replace_call genre of
           Inl error \<Rightarrow> Inl error
         | Inr replaced \<Rightarrow>
             (let seed = replaced @ ''-'' @ number_text cacheBuster;
                  width = 1920;
                  height = 1080;
                  imageUrl = ''https://picsum.photos/seed/'' @ seed @ ''/'' @ number_text width
                               @ ''/'' @ number_text height
              in Inr imageUrl))"

text \<open>The value the promise resolves to; \<^verbatim>\<open>catch\<close> turns a throw into \<^verbatim>\<open>null\<close>.\<close>

definition generateArtImage :: "js_value \<Rightarrow> real \<Rightarrow> string option" where
  "generateArtImage genre random =
     (case generateArtImage_try genre random of
        Inr imageUrl \<Rightarrow> Some imageUrl
      | Inl error \<Rightarrow> None)"

text \<open>
  The slug of each genre as the specification words it: the genre name with a hyphen in
  place of each run of whitespace.
\<close>

fun genre_slug :: "Genre \<Rightarrow> string" where
  "genre_slug Nature = ''Nature''"
| "genre_slug Urban = ''Urban-Architecture''"
| "genre_slug Abstract = ''Abstract-Art''"
| "genre_slug Space = ''Deep-Space''"
| "genre_slug Minimalism = ''Minimalism''"
| "genre_slug Animals = ''Wildlife''"

section \<open>Auxiliary notions for the proofs\<close>

text \<open>Successful loads one after the other, each finished before the next starts.\<close>

definition loads :: "string list \<Rightarrow> app \<Rightarrow> app" where
  "loads urls s = foldl (\<lambda>s u. loadNewImage_whole (Some u) True s) s urls"

text \<open>
  \<open>flight_inv\<close> is what every run keeps true: at most one load is in flight and the
  guard flag says so. \<open>nav_inv\<close> is what the runs keep true in which every call of
  \<^verbatim>\<open>loadNewImage\<close> goes through the current render: moreover the index is in range,
  and the index a pending load closed over lies between the current index and the last
  position of the history.
\<close>

definition flight_inv :: "app \<Rightarrow> bool" where
  "flight_inv s \<longleftrightarrow> length (inFlight s) \<le> 1 \<and> (isGenerating s \<longleftrightarrow> inFlight s \<noteq> [])"

definition nav_inv :: "app \<Rightarrow> bool" where
  "nav_inv s \<longleftrightarrow>
     - 1 \<le> historyIndex s \<and> historyIndex s \<le> int (length (imageHistory s)) - 1 \<and>
     length (inFlight s) \<le> 1 \<and> (isGenerating s \<longleftrightarrow> inFlight s \<noteq> []) \<and>
     (\<forall>k \<in> set (inFlight s). historyIndex s \<le> k \<and> k \<le> int (length (imageHistory s)) - 1)"

fun current_render :: "event \<Rightarrow> bool" where
  "current_render (DeferredCall j) = False"
| "current_render CallLoadNew = True"
| "current_render (Settle j imageUrl decoded) = True"
| "current_render CallLoadPrevious = True"
| "current_render (PickGenre g) = True"

text \<open>
  The run of the genre race: the initial load; a press on NEXT; a press on a genre
  button while that load is under way; the load completes before the 100 ms of the
  timer are over; the timer fires and its load completes.
\<close>

definition genre_race :: "event list" where
  "genre_race =
     [CallLoadNew, Settle 0 (Some ''u1'') True,
      CallLoadNew, PickGenre Urban, Settle 0 (Some ''u2'') True,
      DeferredCall 0, Settle 0 (Some ''u3'') True]"

section \<open>loadPreviousImage\<close>

text \<open>
  Claim C4. \<^verbatim>\<open>loadPreviousImage\<close> leaves the whole state as it is when the history is
  empty or \<^verbatim>\<open>historyIndex\<close> is \<open>-1\<close>; otherwise the current image becomes
  \<^verbatim>\<open>history[historyIndex]\<close> and \<^verbatim>\<open>historyIndex\<close> goes down by one. \<^verbatim>\<open>historyIndex\<close>
  ranges over \<open>-1\<close> and the naturals.
\<close>

theorem loadPreviousImage_spec:
  assumes "- 1 \<le> historyIndex s"
  shows "loadPreviousImage s =
           (if imageHistory s = [] \<or> historyIndex s = - 1 then s
            else s\<lparr> currentImage := at_index (imageHistory s) (historyIndex s),
                    historyIndex := historyIndex s - 1 \<rparr>)"
proof (cases "imageHistory s = [] \<or> historyIndex s = - 1")
  case True
  then show ?thesis by (auto simp: loadPreviousImage_def)
next
  case False
  with assms have "historyIndex s \<ge> 0" "length (imageHistory s) > 0" by auto
  with False show ?thesis by (simp add: loadPreviousImage_def)
qed

theorem loadPreviousImage_spec_witness:
  "- 1 \<le> historyIndex (initial\<lparr> currentImage := Some ''c'', imageHistory := [''a'', ''b''],
                               historyIndex := 1 \<rparr>)
   \<and> loadPreviousImage (initial\<lparr> currentImage := Some ''c'', imageHistory := [''a'', ''b''],
                                 historyIndex := 1 \<rparr>)
     = initial\<lparr> currentImage := Some ''b'', imageHistory := [''a'', ''b''], historyIndex := 0 \<rparr>
   \<and> loadPreviousImage initial = initial"
  using loadPreviousImage_spec [of "initial\<lparr> currentImage := Some ''c'',
          imageHistory := [''a'', ''b''], historyIndex := 1 \<rparr>"]
        loadPreviousImage_spec [of initial]
  by (simp add: initial_def at_index_def)

section \<open>The history index and the genre race\<close>

lemma nav_inv_initial: "nav_inv initial"
  by (simp add: nav_inv_def initial_def)

lemma nav_inv_loadNewImage: "nav_inv s \<Longrightarrow> nav_inv (loadNewImage (historyIndex s) s)"
  by (auto simp: nav_inv_def loadNewImage_def)

lemma nav_inv_loadPreviousImage: "nav_inv s \<Longrightarrow> nav_inv (loadPreviousImage s)"
  by (auto simp: nav_inv_def loadPreviousImage_def)

lemma nav_inv_updateConfig_genre: "nav_inv s \<Longrightarrow> nav_inv (updateConfig_genre g s)"
  by (simp add: nav_inv_def updateConfig_genre_def)

lemma inFlight_single: "length xs \<le> 1 \<Longrightarrow> j < length xs \<Longrightarrow> j = 0 \<and> xs = [xs ! 0]"
  by (cases xs) auto

lemma nav_inv_settle:
  assumes "nav_inv s"
  shows "nav_inv (settle j imageUrl decoded s)"
proof (cases "j < length (inFlight s)")
  case False
  then show ?thesis using assms by (simp add: settle_def)
next
  case True
  from assms have "length (inFlight s) \<le> 1" by (simp add: nav_inv_def)
  with True obtain k where j: "j = 0" and fl: "inFlight s = [k]"
    using inFlight_single by blast
  from assms fl have k: "historyIndex s \<le> k" "k \<le> int (length (imageHistory s)) - 1"
    and i: "- 1 \<le> historyIndex s" "historyIndex s \<le> int (length (imageHistory s)) - 1"
    by (auto simp: nav_inv_def)
  show ?thesis using k i j fl
    by (auto simp: nav_inv_def settle_def loadNewImage_resume_def img_onload_def
        img_onerror_def slice0_def Let_def split: option.splits)
qed

lemma nav_inv_step: "current_render e \<Longrightarrow> nav_inv s \<Longrightarrow> nav_inv (step s e)"
  by (cases e)
    (simp_all add: nav_inv_loadNewImage nav_inv_settle nav_inv_loadPreviousImage
      nav_inv_updateConfig_genre)

lemma nav_inv_run: "list_all current_render evs \<Longrightarrow> nav_inv s \<Longrightarrow> nav_inv (run s evs)"
  unfolding run_def by (induction evs arbitrary: s) (simp_all add: nav_inv_step)

text \<open>
  As long as every call of \<^verbatim>\<open>loadNewImage\<close> goes through the current render, the
  index stays in range, also when \<^verbatim>\<open>loadPreviousImage\<close> runs while a load is in
  flight.
\<close>

lemma current_render_in_range:
  assumes "list_all current_render evs"
  shows "- 1 \<le> historyIndex (run initial evs) \<and>
         historyIndex (run initial evs) \<le> int (length (imageHistory (run initial evs))) - 1"
  using nav_inv_run [OF assms nav_inv_initial] by (simp add: nav_inv_def)

lemma run_genre_race:
  "run initial genre_race =
     initial\<lparr> currentImage := Some ''u3'', loading := False, imageHistory := [''u2''],
              historyIndex := 1, config_genre := Urban \<rparr>"
  by (simp add: genre_race_def run_def initial_def loadNewImage_def settle_def
      loadNewImage_resume_def img_onload_def slice0_def updateConfig_genre_def
      deferredCall_def)

text \<open>
  Claim C1 says that \<^verbatim>\<open>historyIndex\<close> stays within \<open>-1 .. history.length - 1\<close> after
  every sequence of loads and back steps from the initial state. The code breaks it in
  the genre race: the deferred call of \<^verbatim>\<open>updateConfig\<close> cuts the history with the index
  of the render in which the genre was picked, one behind by the time it runs, and leaves
  \<^verbatim>\<open>historyIndex = 1\<close> with a history of one image. A back step then reads
  \<^verbatim>\<open>history[1]\<close>, which is \<^verbatim>\<open>undefined\<close>, and shows no image.
\<close>

theorem genre_race_breaks_range:
  "imageHistory (run initial genre_race) = [''u2''] \<and>
   historyIndex (run initial genre_race) = 1 \<and>
   \<not> historyIndex (run initial genre_race)
       \<le> int (length (imageHistory (run initial genre_race))) - 1 \<and>
   currentImage (loadPreviousImage (run initial genre_race)) = None"
  unfolding run_genre_race
  by (simp add: initial_def loadPreviousImage_def at_index_def)

section \<open>One load at a time\<close>

lemma flight_inv_loadNewImage: "flight_inv s \<Longrightarrow> flight_inv (loadNewImage k s)"
  by (auto simp: flight_inv_def loadNewImage_def)

lemma flight_inv_settle:
  assumes "flight_inv s"
  shows "flight_inv (settle j imageUrl decoded s)"
proof (cases "j < length (inFlight s)")
  case False
  then show ?thesis using assms by (simp add: settle_def)
next
  case True
  from assms have "length (inFlight s) \<le> 1" by (simp add: flight_inv_def)
  with True obtain k where "j = 0" and "inFlight s = [k]"
    using inFlight_single by blast
  then show ?thesis
    by (auto simp: flight_inv_def settle_def loadNewImage_resume_def img_onload_def
        img_onerror_def Let_def split: option.splits)
qed

lemma flight_inv_step: "flight_inv s \<Longrightarrow> flight_inv (step s e)"
proof (cases e)
  case CallLoadNew
  assume "flight_inv s"
  then show ?thesis using CallLoadNew by (simp add: flight_inv_loadNewImage)
next
  case (Settle j imageUrl decoded)
  assume "flight_inv s"
  then show ?thesis using Settle by (simp add: flight_inv_settle)
next
  case CallLoadPrevious
  assume "flight_inv s"
  then show ?thesis using CallLoadPrevious by (simp add: flight_inv_def loadPreviousImage_def)
next
  case (PickGenre g)
  assume "flight_inv s"
  then show ?thesis using PickGenre by (simp add: flight_inv_def updateConfig_genre_def)
next
  case (DeferredCall j)
  assume "flight_inv s"
  then have "flight_inv (s\<lparr> deferred := take j (deferred s) @ drop (Suc j) (deferred s) \<rparr>)"
    by (simp add: flight_inv_def)
  then show ?thesis using DeferredCall \<open>flight_inv s\<close>
    by (simp add: deferredCall_def flight_inv_loadNewImage)
qed

lemma flight_inv_run: "flight_inv s \<Longrightarrow> flight_inv (run s evs)"
  unfolding run_def by (induction evs arbitrary: s) (simp_all add: flight_inv_step)

lemma flight_inv_initial: "flight_inv initial"
  by (simp add: flight_inv_def initial_def)

text \<open>
  Claim C5. A call of \<^verbatim>\<open>loadNewImage\<close> made while the \<^verbatim>\<open>isGenerating\<close> flag is set
  leaves the whole state as it is, the list of loads in flight included, so no second
  request goes to the provider; and in every state a run reaches from the initial state
  at most one load is in flight, the flag being set exactly when there is one.
\<close>

theorem single_flight:
  "(isGenerating s \<longrightarrow> loadNewImage k s = s) \<and>
   length (inFlight (run initial evs)) \<le> 1 \<and>
   (isGenerating (run initial evs) \<longleftrightarrow> inFlight (run initial evs) \<noteq> [])"
  using flight_inv_run [OF flight_inv_initial, of evs]
  by (simp add: flight_inv_def loadNewImage_def)

theorem single_flight_witness:
  "isGenerating (run initial [CallLoadNew]) \<and>
   loadNewImage 0 (run initial [CallLoadNew]) = run initial [CallLoadNew] \<and>
   inFlight (run initial [CallLoadNew, CallLoadNew]) = [- 1] \<and>
   length (inFlight (run initial [CallLoadNew, CallLoadNew])) \<le> 1"
  using single_flight [of "run initial [CallLoadNew]" 0 "[CallLoadNew, CallLoadNew]"]
  by (simp add: run_def initial_def loadNewImage_def)

section \<open>Loads that run to their end\<close>

lemma loadNewImage_whole_idle:
  "\<not> isGenerating s \<Longrightarrow>
   loadNewImage_whole imageUrl decoded s =
     loadNewImage_resume (historyIndex s) imageUrl decoded
       (s\<lparr> isGenerating := True, loading := True \<rparr>)"
  by (simp add: loadNewImage_whole_def loadNewImage_def settle_def)

lemma loadNewImage_whole_loaded:
  assumes "\<not> isGenerating s" "u \<noteq> []"
  shows "loadNewImage_whole (Some u) True s =
           (case currentImage s of
              None \<Rightarrow> s\<lparr> currentImage := Some u, loading := False \<rparr>
            | Some p \<Rightarrow>
                if p \<noteq> [] then
                  s\<lparr> currentImage := Some u, loading := False,
                     imageHistory := slice0 (imageHistory s) (historyIndex s + 1) @ [p],
                     historyIndex := historyIndex s + 1 \<rparr>
                else s\<lparr> currentImage := Some u, loading := False \<rparr>)"
  using assms
  by (simp add: loadNewImage_whole_idle loadNewImage_resume_def img_onload_def Let_def
      split: option.splits)

lemma loads_snoc: "loads (urls @ [u]) s = loadNewImage_whole (Some u) True (loads urls s)"
  by (simp add: loads_def)

lemma loads_initial:
  assumes "\<forall>u \<in> set urls. u \<noteq> []" "urls \<noteq> []"
  shows "currentImage (loads urls initial) = Some (last urls) \<and>
         \<not> isGenerating (loads urls initial) \<and>
         length (imageHistory (loads urls initial)) = length urls - 1 \<and>
         historyIndex (loads urls initial) = int (length urls) - 2"
  using assms
proof (induction urls rule: rev_induct)
  case Nil
  then show ?case by simp
next
  case (snoc u urls)
  show ?case
  proof (cases "urls = []")
    case True
    have "\<not> isGenerating initial" by (simp add: initial_def)
    moreover have "u \<noteq> []" using snoc.prems by simp
    ultimately show ?thesis using True
      by (simp add: loads_snoc loads_def loadNewImage_whole_loaded initial_def)
  next
    case False
    with snoc have IH: "currentImage (loads urls initial) = Some (last urls)"
      "\<not> isGenerating (loads urls initial)"
      "length (imageHistory (loads urls initial)) = length urls - 1"
      "historyIndex (loads urls initial) = int (length urls) - 2"
      by auto
    have u: "u \<noteq> []" and l: "last urls \<noteq> []" using snoc.prems False by auto
    have n: "length urls \<ge> 1" using False by (cases urls) auto
    show ?thesis unfolding loads_snoc
      using IH l n False by (simp add: loadNewImage_whole_loaded [OF IH(2) u] slice0_def)
  qed
qed

lemma loads_two:
  "loads [''a'', ''b''] initial =
     initial\<lparr> currentImage := Some ''b'', loading := False, imageHistory := [''a''],
              historyIndex := 0 \<rparr>"
  by (simp add: loads_def initial_def loadNewImage_whole_def loadNewImage_def settle_def
      loadNewImage_resume_def img_onload_def slice0_def)

text \<open>
  Loads made through the current render, each finished before the next starts: after
  \<open>N \<ge> 1\<close> of them from the initial session the history holds \<open>N - 1\<close> images and
  \<^verbatim>\<open>historyIndex\<close> is \<open>N - 2\<close>.
\<close>

lemma loads_history:
  assumes "urls \<noteq> []" and "\<forall>u \<in> set urls. u \<noteq> []"
  shows "length (imageHistory (loads urls initial)) = length urls - 1 \<and>
         historyIndex (loads urls initial) = int (length urls) - 2"
  using loads_initial [OF assms(2) assms(1)] by simp

text \<open>
  Claim C3 says that \<open>N\<close> successful calls of \<^verbatim>\<open>loadNewImage\<close> in a row from the
  initial session, with no call of \<^verbatim>\<open>loadPreviousImage\<close> between them, leave
  \<open>N - 1\<close> images in the history and \<^verbatim>\<open>historyIndex = N - 2\<close>. The genre race is three
  such calls, each completed before the next is made and none of them a back step; the
  third, the deferred call of \<^verbatim>\<open>updateConfig\<close>, cuts the history before it appends, and
  one image is left where the claim has two.
\<close>

theorem genre_race_history_length:
  "filter (\<lambda>e. e = CallLoadPrevious) genre_race = [] \<and>
   currentImage (run initial (take 2 genre_race)) = Some ''u1'' \<and>
   currentImage (run initial (take 5 genre_race)) = Some ''u2'' \<and>
   currentImage (run initial genre_race) = Some ''u3'' \<and>
   length (imageHistory (run initial genre_race)) = 1 \<and>
   length (imageHistory (run initial genre_race)) \<noteq> 3 - 1"
  unfolding run_genre_race
  by (simp add: genre_race_def run_def initial_def loadNewImage_def settle_def
      loadNewImage_resume_def img_onload_def slice0_def updateConfig_genre_def)

section \<open>Going back and then forward\<close>

text \<open>
  Claim C2, as stated: after \<^verbatim>\<open>loadPreviousImage\<close> and a successful \<^verbatim>\<open>loadNewImage\<close>
  the image shown before the two is still the current image or in the history. It
  fails in the session that has loaded \<open>a\<close> and then \<open>b\<close>: going back shows \<open>a\<close>,
  loading \<open>c\<close> archives \<open>a\<close>, and \<open>b\<close> is nowhere.
\<close>

theorem back_then_next_drops_displayed:
  "imageHistory (loads [''a'', ''b''] initial) \<noteq> [] \<and>
   historyIndex (loads [''a'', ''b''] initial) \<ge> 0 \<and>
   currentImage (loads [''a'', ''b''] initial) = Some ''b'' \<and>
   currentImage (loadNewImage_whole (Some ''c'') True
     (loadPreviousImage (loads [''a'', ''b''] initial))) \<noteq> Some ''b'' \<and>
   ''b'' \<notin> set (imageHistory (loadNewImage_whole (Some ''c'') True
     (loadPreviousImage (loads [''a'', ''b''] initial))))"
  unfolding loads_two
  by (simp add: initial_def loadNewImage_whole_def loadNewImage_def settle_def
      loadNewImage_resume_def img_onload_def slice0_def loadPreviousImage_def at_index_def)

text \<open>
  Claim C2, amended. From a state with \<open>0 \<le> historyIndex < history.length\<close> and no
  load in flight, \<^verbatim>\<open>loadPreviousImage\<close> followed by a successful \<^verbatim>\<open>loadNewImage\<close> of
  \<open>u\<close>, called through the render that follows the back step (its closure holds the
  index the back step left) and finished before anything else happens, makes \<open>u\<close> the
  current image, keeps the first \<open>historyIndex + 1\<close> entries of
  the history and drops the rest, so that the image \<^verbatim>\<open>loadPreviousImage\<close> had restored
  is still at \<^verbatim>\<open>history[historyIndex]\<close>, and brings \<^verbatim>\<open>historyIndex\<close> back to the value
  it had. The image shown before is stored by neither operation.
\<close>

theorem back_then_next:
  assumes "0 \<le> historyIndex s" and "historyIndex s < int (length (imageHistory s))"
    and "imageHistory s ! nat (historyIndex s) \<noteq> []"
    and "\<not> isGenerating s" and "u \<noteq> []"
  shows "currentImage (loadNewImage_whole (Some u) True (loadPreviousImage s)) = Some u \<and>
         imageHistory (loadNewImage_whole (Some u) True (loadPreviousImage s))
           = take (nat (historyIndex s) + 1) (imageHistory s) \<and>
         at_index (imageHistory (loadNewImage_whole (Some u) True (loadPreviousImage s)))
             (historyIndex s)
           = at_index (imageHistory s) (historyIndex s) \<and>
         historyIndex (loadNewImage_whole (Some u) True (loadPreviousImage s)) = historyIndex s"
proof -
  let ?p = "loadPreviousImage s"
  let ?i = "nat (historyIndex s)"
  have len: "?i < length (imageHistory s)" using assms(1,2) by simp
  have p: "?p = s\<lparr> currentImage := Some (imageHistory s ! ?i),
                    historyIndex := historyIndex s - 1 \<rparr>"
    using assms(1,2) len by (auto simp: loadPreviousImage_def at_index_def)
  have g: "\<not> isGenerating ?p" using assms(4) by (simp add: p)
  have tk: "take ?i (imageHistory s) @ [imageHistory s ! ?i] = take (?i + 1) (imageHistory s)"
    using len by (simp add: take_Suc_conv_app_nth)
  have sl: "slice0 (imageHistory s) (historyIndex s) = take ?i (imageHistory s)"
    using assms(1) by (simp add: slice0_def)
  show ?thesis
    unfolding loadNewImage_whole_loaded [OF g assms(5)]
    using assms(1,2,3) len tk sl by (simp add: p at_index_def)
qed

theorem back_then_next_witness:
  "0 \<le> historyIndex (loads [''a'', ''b''] initial) \<and>
   historyIndex (loads [''a'', ''b''] initial)
     < int (length (imageHistory (loads [''a'', ''b''] initial))) \<and>
   imageHistory (loads [''a'', ''b''] initial) ! nat (historyIndex (loads [''a'', ''b''] initial))
     \<noteq> [] \<and>
   \<not> isGenerating (loads [''a'', ''b''] initial) \<and> ''c'' \<noteq> [] \<and>
   currentImage (loadNewImage_whole (Some ''c'') True
     (loadPreviousImage (loads [''a'', ''b''] initial))) = Some ''c'' \<and>
   imageHistory (loadNewImage_whole (Some ''c'') True
     (loadPreviousImage (loads [''a'', ''b''] initial))) = [''a''] \<and>
   historyIndex (loadNewImage_whole (Some ''c'') True
     (loadPreviousImage (loads [''a'', ''b''] initial))) = 0"
  using back_then_next [of "loads [''a'', ''b''] initial" "''c''"]
  unfolding loads_two by (simp add: initial_def)

section \<open>Failed loads\<close>

text \<open>
  Claim C6. When a load fails, the provider resolving to \<^verbatim>\<open>null\<close> (or to an empty
  string) or the image not decoding, \<^verbatim>\<open>loading\<close> is cleared and \<^verbatim>\<open>isGenerating\<close> is
  released, the load leaves the list of loads in flight and nothing is started in its
  place, and every other cell, the current image, the history and \<^verbatim>\<open>historyIndex\<close>
  among them, stays as it was: at the moment the failure arrives, and for a call that
  runs to its end, with respect to the state before the call.
\<close>

theorem loadNewImage_failure:
  assumes "\<not> (truthy imageUrl \<and> decoded)"
  shows "(j < length (inFlight s) \<longrightarrow>
            settle j imageUrl decoded s =
              s\<lparr> loading := False, isGenerating := False,
                 inFlight := take j (inFlight s) @ drop (Suc j) (inFlight s) \<rparr>) \<and>
         (\<not> isGenerating s \<longrightarrow>
            loadNewImage_whole imageUrl decoded s = s\<lparr> loading := False, isGenerating := False \<rparr>)"
  using assms
  by (auto simp: truthy_def settle_def loadNewImage_whole_def loadNewImage_def
      loadNewImage_resume_def img_onerror_def split: option.splits)

theorem loadNewImage_failure_witness:
  "\<not> (truthy (Some ''u'') \<and> False) \<and>
   0 < length (inFlight (run (loads [''a'', ''b''] initial) [CallLoadNew])) \<and>
   settle 0 (Some ''u'') False (run (loads [''a'', ''b''] initial) [CallLoadNew])
     = loads [''a'', ''b''] initial \<and>
   \<not> isGenerating (loads [''a'', ''b''] initial) \<and>
   loadNewImage_whole (Some ''u'') False (loads [''a'', ''b''] initial)
     = loads [''a'', ''b''] initial"
  using loadNewImage_failure [of "Some ''u''" False 0
          "run (loads [''a'', ''b''] initial) [CallLoadNew]"]
        loadNewImage_failure [of "Some ''u''" False 0 "loads [''a'', ''b''] initial"]
  unfolding loads_two by (simp add: initial_def run_def loadNewImage_def)

section \<open>Double taps\<close>

lemma singleTapTimer_loadNewImage [simp]:
  "singleTapTimer (loadNewImage k s) = singleTapTimer s"
  by (simp add: loadNewImage_def)

lemma singleTapTimer_loadPreviousImage [simp]:
  "singleTapTimer (loadPreviousImage s) = singleTapTimer s"
  by (simp add: loadPreviousImage_def)

text \<open>
  Claim C7, as stated: a second tap in the same zone within 300 ms of the first is a
  double tap and cancels the pending single-tap action. It fails in the center zone:
  of two taps in the middle of the screen 100 ms apart, the second is handled as a
  single tap again, the 300 ms timer is armed afterwards and its callback shows the
  controls.
\<close>

theorem center_taps_not_double:
  "side_of 50 100 = Center \<and>
   lastTapSide (handleInteraction 50 100 1000 initial) = Some (side_of 50 100) \<and>
   singleTapTimer (handleInteraction 50 100 1100 (handleInteraction 50 100 1000 initial))
     = Some False \<and>
   showControls (singleTapAction
     (handleInteraction 50 100 1100 (handleInteraction 50 100 1000 initial)))"
  by (simp add: side_of_def handleInteraction_def initial_def singleTapAction_def Let_def)

text \<open>
  Claim C7, amended. Let the last tap have been recorded as a first tap in \<open>zone\<close>,
  and let the next tap come more than 0 and less than 300 ms later. If \<open>zone\<close> is the
  right zone and the tap is at \<open>x > 65%\<close> of the width, \<^verbatim>\<open>loadNewImage\<close> is called;
  if \<open>zone\<close> is the left zone and the tap is at \<open>x < 35%\<close>, \<^verbatim>\<open>loadPreviousImage\<close> is
  called; in both cases the single-tap timer is cleared, so its callback has nothing
  left to do, and the tap record is reset. If the two taps are in different zones, or
  both in the center zone, nothing is navigated: the tap is recorded as a first tap and
  the single-tap timer is armed anew.
\<close>

theorem double_tap:
  assumes "0 \<le> w" and "lastTapSide s = Some zone"
    and "0 < t - lastTapTime s" and "t - lastTapTime s < 300"
  shows "(zone = Right \<and> x > w * (65 / 100) \<longrightarrow>
            handleInteraction x w t s =
              (loadNewImage (historyIndex s) (s\<lparr> singleTapTimer := None \<rparr>))
                \<lparr> lastTapTime := 0, lastTapSide := None \<rparr>) \<and>
         (zone = Left \<and> x < w * (35 / 100) \<longrightarrow>
            handleInteraction x w t s =
              (loadPreviousImage (s\<lparr> singleTapTimer := None \<rparr>))
                \<lparr> lastTapTime := 0, lastTapSide := None \<rparr>) \<and>
         (zone \<noteq> Center \<and> side_of x w = zone \<longrightarrow>
            singleTapTimer (handleInteraction x w t s) = None \<and>
            singleTapAction (handleInteraction x w t s) = handleInteraction x w t s) \<and>
         (zone = Center \<or> side_of x w \<noteq> zone \<longrightarrow>
            handleInteraction x w t s =
              s\<lparr> lastTapTime := t, lastTapSide := Some (side_of x w),
                 singleTapTimer := Some (showControls s) \<rparr>)"
proof -
  have r: "x > w * (65 / 100) \<Longrightarrow> side_of x w = Right"
    using assms(1) by (simp add: side_of_def)
  have l: "x < w * (35 / 100) \<Longrightarrow> side_of x w = Left"
    by (simp add: side_of_def)
  show ?thesis
    using assms(2-4) r l
    by (cases zone) (auto simp: handleInteraction_def Let_def singleTapAction_def)
qed

theorem double_tap_witness:
  "(0::real) \<le> 100 \<and> lastTapSide (handleInteraction 90 100 1000 initial) = Some Right \<and>
   0 < 1200 - lastTapTime (handleInteraction 90 100 1000 initial) \<and>
   1200 - lastTapTime (handleInteraction 90 100 1000 initial) < 300 \<and>
   (80::real) > 100 * (65 / 100) \<and>
   isGenerating (handleInteraction 80 100 1200 (handleInteraction 90 100 1000 initial)) \<and>
   inFlight (handleInteraction 80 100 1200 (handleInteraction 90 100 1000 initial)) = [- 1] \<and>
   singleTapTimer (handleInteraction 80 100 1200 (handleInteraction 90 100 1000 initial))
     = None \<and>
   handleInteraction 50 100 1200 (handleInteraction 90 100 1000 initial)
     = (handleInteraction 90 100 1000 initial)
         \<lparr> lastTapTime := 1200, lastTapSide := Some Center \<rparr>"
  using double_tap [where w = 100 and s = "handleInteraction 90 100 1000 initial"
          and zone = Right and t = 1200 and x = 80]
    double_tap [where w = 100 and s = "handleInteraction 90 100 1000 initial"
          and zone = Right and t = 1200 and x = 50]
  by (simp add: side_of_def handleInteraction_def initial_def Let_def loadNewImage_def)

section \<open>Brightness swipes\<close>

lemma handleTouchMove_only_brightness: "\<exists>b. handleTouchMove x y w s = s\<lparr> brightness := b \<rparr>"
proof (cases "handleTouchMove x y w s = s")
  case True
  then have "handleTouchMove x y w s = s\<lparr> brightness := brightness s \<rparr>" by simp
  then show ?thesis ..
next
  case False
  then show ?thesis
    by (auto simp: handleTouchMove_def Let_def split: option.splits if_splits)
qed

lemma touchMoves_only_brightness: "\<exists>b. touchMoves w ms s = s\<lparr> brightness := b \<rparr>"
proof (induction ms rule: rev_induct)
  case Nil
  have "touchMoves w [] s = s\<lparr> brightness := brightness s \<rparr>" by (simp add: touchMoves_def)
  then show ?case ..
next
  case (snoc m ms)
  then obtain b where b: "touchMoves w ms s = s\<lparr> brightness := b \<rparr>" by blast
  obtain x y where m: "m = (x, y)" by (cases m)
  obtain b' where
    "handleTouchMove x y w (s\<lparr> brightness := b \<rparr>) = s\<lparr> brightness := b \<rparr>\<lparr> brightness := b' \<rparr>"
    using handleTouchMove_only_brightness by blast
  then have "touchMoves w (ms @ [m]) s = s\<lparr> brightness := b' \<rparr>"
    by (simp add: touchMoves_def m b [unfolded touchMoves_def])
  then show ?case ..
qed

lemma touchMoves_still:
  assumes "touchStart s = Some (startX, startY)"
    and "\<not> startX > w * (6 / 10) \<or>
         (\<forall>(x, y) \<in> set ms. \<not> (\<bar>startY - y\<bar> > 10 \<and> \<bar>startY - y\<bar> > \<bar>x - startX\<bar>))"
  shows "touchMoves w ms s = s"
  using assms(2)
proof (induction ms rule: rev_induct)
  case Nil
  then show ?case by (simp add: touchMoves_def)
next
  case (snoc m ms)
  then have "touchMoves w ms s = s" by auto
  then show ?case using snoc.prems assms(1)
    by (auto simp: touchMoves_def handleTouchMove_def Let_def)
qed

text \<open>
  Claim C8. Take a touch that starts at \<open>(startX, startY)\<close> with
  \<open>startX > 0.6 * width\<close>. After a move to a point where \<open>deltaY = startY - y\<close>, the
  upward displacement from the start, is beyond the deadzone (\<open>|deltaY| > 10\<close>) and
  larger than the sideways one (\<open>|deltaY| > |deltaX|\<close>), whatever moves came before
  it, the brightness is \<open>max 0.1 (min 2.0 (b + deltaY / 300))\<close>, \<open>b\<close> being the
  brightness when the touch began, and nothing else has changed. A touch that starts
  further left, or none of whose moves is both beyond the deadzone and more vertical
  than sideways, changes nothing. Moving up by 150 px from brightness 1.0 gives 1.5.
\<close>

theorem swipe_brightness:
  "(startX > w * (6 / 10) \<and> \<bar>startY - y\<bar> > 10 \<and> \<bar>startY - y\<bar> > \<bar>x - startX\<bar> \<longrightarrow>
      touchMoves w (ms @ [(x, y)]) (handleTouchStart startX startY s) =
        (handleTouchStart startX startY s)
          \<lparr> brightness := max (1 / 10) (min 2 (brightness s + (startY - y) / 300)) \<rparr>) \<and>
   (\<not> startX > w * (6 / 10) \<or>
    (\<forall>(x, y) \<in> set ms. \<not> (\<bar>startY - y\<bar> > 10 \<and> \<bar>startY - y\<bar> > \<bar>x - startX\<bar>)) \<longrightarrow>
      touchMoves w ms (handleTouchStart startX startY s) = handleTouchStart startX startY s)"
proof -
  let ?st = "handleTouchStart startX startY s"
  obtain b where b: "touchMoves w ms ?st = ?st\<lparr> brightness := b \<rparr>"
    using touchMoves_only_brightness by blast
  have "touchMoves w (ms @ [(x, y)]) ?st = handleTouchMove x y w (?st\<lparr> brightness := b \<rparr>)"
    using b by (simp add: touchMoves_def)
  moreover have "touchStart ?st = Some (startX, startY)"
    by (simp add: handleTouchStart_def)
  ultimately show ?thesis
    using touchMoves_still [of ?st startX startY w ms]
    by (auto simp: handleTouchMove_def handleTouchStart_def Let_def)
qed

theorem swipe_brightness_witness:
  "(80::real) > 100 * (6 / 10) \<and> \<bar>500 - 350 :: real\<bar> > 10 \<and>
   \<bar>500 - 350 :: real\<bar> > \<bar>80 - 80\<bar> \<and> brightness initial = 1 \<and>
   brightness (touchMoves 100 [(85, 450), (80, 350)] (handleTouchStart 80 500 initial))
     = 3 / 2 \<and>
   \<not> (20::real) > 100 * (6 / 10) \<and>
   brightness (touchMoves 100 [(20, 350)] (handleTouchStart 20 500 initial)) = 1 \<and>
   \<not> \<bar>500 - 490 :: real\<bar> > \<bar>200 - 80\<bar> \<and>
   brightness (touchMoves 100 [(200, 490)] (handleTouchStart 80 500 initial)) = 1"
  using swipe_brightness [where startX = 80 and w = 100 and startY = 500 and y = 350 and x = 80
          and s = initial and ms = "[(85, 450)]"]
    swipe_brightness [where startX = 20 and w = 100 and startY = 500 and s = initial
          and ms = "[(20, 350)]"]
    swipe_brightness [where startX = 80 and w = 100 and startY = 500 and s = initial
          and ms = "[(200, 490)]"]
  by (simp add: handleTouchStart_def initial_def)

section \<open>The URL the provider builds\<close>

lemma replace_ws_genre: "replace_ws (genre_text genre) = genre_slug genre"
  by (cases genre) (simp_all add: replace_ws.simps is_ws_def)

lemma number_text_dimensions: "number_text 1920 = ''1920''" "number_text 1080 = ''1080''"
  by (simp_all add: number_text_def decimal.simps digit_char_def)

lemma cacheBuster_range:
  assumes "0 \<le> random" "random < 1"
  shows "0 \<le> \<lfloor>random * 100000 :: real\<rfloor> \<and> \<lfloor>random * 100000\<rfloor> < 100000"
  using assms by (simp add: floor_less_iff)

lemma generateArtImage_string:
  "generateArtImage (JString str) random =
     Some (''https://picsum.photos/seed/'' @ replace_ws str @ ''-''
            @ number_text \<lfloor>random * 100000\<rfloor> @ ''/1920/1080'')"
  by (simp add: generateArtImage_def generateArtImage_try_def Let_def number_text_dimensions)

lemma generateArtImage_no_string:
  "(\<forall>str. v \<noteq> JString str) \<Longrightarrow> generateArtImage v random = None"
  by (cases v) (simp_all add: generateArtImage_def generateArtImage_try_def)

text \<open>
  Claim C9. For every genre, and every value \<open>random\<close> of \<^verbatim>\<open>Math.random()\<close> in
  \<open>[0, 1)\<close>, \<^verbatim>\<open>generateArtImage\<close> resolves to
  \<^verbatim>\<open>https://picsum.photos/seed/<slug>-<n>/1920/1080\<close>, where \<open>slug\<close> is the genre name
  with a hyphen for each run of whitespace and \<open>n\<close> is \<open>\<lfloor>random * 100000\<rfloor>\<close> in
  decimal, a natural number below 100000. Nothing is thrown whatever the argument is at
  run time: the result is \<^verbatim>\<open>null\<close>, or the argument is a string and the result is the
  URL built from it in this way.
\<close>

theorem generateArtImage_url:
  assumes "0 \<le> random" and "random < 1"
  shows "generateArtImage (genre_value genre) random =
           Some (''https://picsum.photos/seed/'' @ genre_slug genre @ ''-''
                   @ decimal (nat \<lfloor>random * 100000\<rfloor>) @ ''/1920/1080'') \<and>
         nat \<lfloor>random * 100000\<rfloor> < 100000 \<and>
         (generateArtImage v random = None \<or>
          (\<exists>str. v = JString str \<and>
             generateArtImage v random =
               Some (''https://picsum.photos/seed/'' @ replace_ws str @ ''-''
                       @ decimal (nat \<lfloor>random * 100000\<rfloor>) @ ''/1920/1080'')))"
proof -
  let ?n = "nat \<lfloor>random * 100000\<rfloor>"
  have n: "?n < 100000"
    using cacheBuster_range [OF assms] by linarith
  have t: "number_text \<lfloor>random * 100000\<rfloor> = decimal ?n"
    using cacheBuster_range [OF assms] by (simp add: number_text_def)
  have g: "generateArtImage (genre_value genre) random =
             Some (''https://picsum.photos/seed/'' @ genre_slug genre @ ''-''
                     @ decimal ?n @ ''/1920/1080'')"
    by (simp add: genre_value_def generateArtImage_string replace_ws_genre t)
  have v: "generateArtImage v random = None \<or>
           (\<exists>str. v = JString str \<and>
              generateArtImage v random =
                Some (''https://picsum.photos/seed/'' @ replace_ws str @ ''-''
                        @ decimal ?n @ ''/1920/1080''))"
  proof (cases "\<exists>str. v = JString str")
    case True
    then show ?thesis by (auto simp: generateArtImage_string t)
  next
    case False
    then show ?thesis by (simp add: generateArtImage_no_string)
  qed
  from g n v show ?thesis by simp
qed

theorem generateArtImage_url_witness:
  "(0::real) \<le> 12345 / 100000 \<and> (12345 / 100000 :: real) < 1 \<and>
   generateArtImage (genre_value Urban) (12345 / 100000)
     = Some ''https://picsum.photos/seed/Urban-Architecture-12345/1920/1080'' \<and>
   generateArtImage (JString ''a  b'') (12345 / 100000)
     = Some ''https://picsum.photos/seed/a-b-12345/1920/1080'' \<and>
   generateArtImage JNull (12345 / 100000) = None"
  using generateArtImage_url [where random = "12345 / 100000" and genre = Urban and v = JNull]
    generateArtImage_url [where random = "12345 / 100000" and genre = Urban
      and v = "JString ''a  b''"]
  by (simp add: generateArtImage_string generateArtImage_no_string replace_ws.simps is_ws_def
      number_text_def decimal.simps digit_char_def)

text \<open>
  Claim C10. \<^verbatim>\<open>generateArtImage\<close> never resolves to \<^verbatim>\<open>null\<close> for a genre. The one
  expression of its \<^verbatim>\<open>try\<close> block that can throw is the call of \<^verbatim>\<open>replace\<close>, and it
  throws exactly when the argument is not a string; so the result is \<^verbatim>\<open>null\<close> for
  those arguments only, none of which is a genre. For every genre the result is a
  non-empty string, and the continuation of \<^verbatim>\<open>loadNewImage\<close> takes the branch that
  preloads the image, never the one for a missing URL.
\<close>

theorem generateArtImage_never_null:
  "(generateArtImage v random = None \<longleftrightarrow> (\<forall>str. v \<noteq> JString str)) \<and>
   (\<exists>imageUrl. imageUrl \<noteq> [] \<and>
      generateArtImage (genre_value genre) random = Some imageUrl \<and>
      truthy (generateArtImage (genre_value genre) random) \<and>
      loadNewImage_resume k (generateArtImage (genre_value genre) random) decoded s =
        (if decoded then img_onload k imageUrl s else img_onerror s))"
proof -
  have "generateArtImage v random = None \<longleftrightarrow> (\<forall>str. v \<noteq> JString str)"
    by (cases v) (simp_all add: generateArtImage_string generateArtImage_no_string)
  moreover have
    "\<exists>imageUrl. imageUrl \<noteq> [] \<and>
       generateArtImage (genre_value genre) random = Some imageUrl \<and>
       truthy (generateArtImage (genre_value genre) random) \<and>
       loadNewImage_resume k (generateArtImage (genre_value genre) random) decoded s =
         (if decoded then img_onload k imageUrl s else img_onerror s)"
    by (simp add: genre_value_def generateArtImage_string truthy_def loadNewImage_resume_def)
  ultimately show ?thesis by simp
qed

theorem generateArtImage_never_null_witness:
  "generateArtImage JUndefined (1 / 2) = None \<and>
   generateArtImage (JNumber 7) (1 / 2) = None \<and>
   generateArtImage (genre_value Space) (1 / 2)
     = Some ''https://picsum.photos/seed/Deep-Space-50000/1920/1080'' \<and>
   truthy (generateArtImage (genre_value (config_genre initial)) (1 / 2))"
  using generateArtImage_never_null [where v = JUndefined and random = "1 / 2" and genre = Space]
    generateArtImage_never_null [where v = "JNumber 7" and random = "1 / 2"
      and genre = "config_genre initial"]
  by (simp add: genre_value_def generateArtImage_string generateArtImage_no_string
      replace_ws.simps is_ws_def number_text_def decimal.simps digit_char_def truthy_def)

end
